theory Spec2Isabelle
  imports Main
begin

section \<open>The event registry of lum.events.js\<close>

text \<open>
  The development embeds the dispatch core of the package: the Registry class
  (\<open>add\<close>, \<open>removeAll\<close>, \<open>removeEvents\<close>, \<open>removeListeners\<close>, \<open>remove\<close>,
  \<open>emit\<close>, \<open>set\<close>, \<open>getEventTypes\<close>, \<open>splitNames\<close>, \<open>makeListener\<close>, \<open>listen\<close>,
  \<open>once\<close>), the Listener class (constructor, \<open>emitEvent\<close>) and the Event class
  (the five-argument constructor that \<open>emitEvent\<close> calls). The code that attaches
  wrapper properties
  to targets, listeners and status objects (\<open>setupTargets\<close>, \<open>extendInternal\<close>,
  \<open>register\<close>, \<open>unregister\<close>) touches none of the data modelled here and is left out.

  JavaScript objects have identity and are mutated in place, so objects live in an
  explicit store: Listener instances, Set objects holding event types, argument arrays
  and Event instances are kept in four lists, and a reference is an index into its
  list. Allocation appends, so a new object never shares its address with an old one.
  A JavaScript \<open>Set\<close> iterates in insertion order and holds no duplicates: its
  contents are a list, \<open>set_add\<close> appends an element that is not yet a member.
\<close>

subsection \<open>Values and event types\<close>

type_synonym target = nat
type_synonym lid = nat
type_synonym eid = nat
type_synonym aid = nat
type_synonym sid = nat

text \<open>An event type is a string or a symbol (its identity and its description).\<close>

datatype etype = Str string | Sym nat "string option"

text \<open>
  The values that reach the code as positional arguments of \<open>emit\<close>, as the argument
  of \<open>remove\<close> and \<open>add\<close>: primitives, plain objects (by identity), Event instances and
  Listener instances (by reference).
\<close>

datatype val =
    Undef
  | Null
  | Bool bool
  | Num int
  | StrV string
  | SymV nat "string option"
  | Obj nat
  | Ev eid
  | Lsnr lid

text \<open>\<open>isObj\<close> of the core library: \<open>typeof v === 'object' && v !== null\<close>.\<close>

fun isObj :: "val \<Rightarrow> bool" where
  "isObj (Obj _) = True"
| "isObj (Ev _) = True"
| "isObj (Lsnr _) = True"
| "isObj _ = False"

text \<open>
  What \<open>getEventTypes\<close> may be given: a string, a symbol, a Set object (by
  reference), another iterable (by its elements, in iteration order), null or
  undefined, or any other value.
\<close>

datatype tyarg =
    TStr string
  | TSym nat "string option"
  | TSet sid
  | TIter "etype list"
  | TNullish
  | TOther

datatype error = TypeError string | RangeError string

text \<open>
  The TypeError that the engine raises when a property is read from \<open>undefined\<close>.
  The wording of its message is the engine's, not the sources'.
\<close>

definition undefined_read :: error where
  "undefined_read = TypeError ''Cannot read properties of undefined''"

subsection \<open>JavaScript Sets as insertion-ordered lists\<close>

definition set_add :: "'a list \<Rightarrow> 'a \<Rightarrow> 'a list" where
  "set_add xs x = (if x \<in> set xs then xs else xs @ [x])"

text \<open>\<open>new Set(iterable)\<close>: the elements in order, each kept at its first occurrence.\<close>

definition new_Set :: "'a list \<Rightarrow> 'a list" where
  "new_Set xs = foldl set_add [] xs"

text \<open>\<open>a.union(b)\<close>: the elements of \<open>a\<close>, then those of \<open>b\<close> that \<open>a\<close> lacks.\<close>

definition set_union :: "'a list \<Rightarrow> 'a list \<Rightarrow> 'a list" where
  "set_union xs ys = foldl set_add xs ys"

subsection \<open>Records of the classes\<close>

text \<open>
  An Event. \<open>options_once\<close> is the \<open>once\<close> key of the composed \<open>options\<close> object, the
  one key of it that is read back after construction (by \<open>emitEvent\<close>); \<open>args\<close> is a
  reference to an array, \<open>origEvent\<close> and \<open>prevEvent\<close> are references to Events.
  The fields \<open>typeData\<close> and \<open>emitStatus\<close> are not read by the dispatch and are left out.
\<close>

record event =
  eventListener :: lid
  args :: aid
  target :: target
  evtype :: etype
  name :: string
  options_once :: "bool option"
  data :: val
  prevEvent :: "eid option"
  origEvent :: eid

text \<open>
  Callbacks. A handler is called with the Event (and sees the contents of the Event's
  argument array); it acts on the application's own state \<open>'w\<close> and may set
  \<open>status.stopEmitting\<close>, which is the returned flag. The setup callbacks act on \<open>'w\<close>.
  This is less than a JavaScript callback can do: through the Event it holds the
  status, the argument array and the registry, and could change any of them or call
  the registry again. Such callbacks are outside the model; what is proved below of
  a state in which a callback runs is proved for callbacks of this kind.
\<close>

type_synonym 'w callback = "event \<Rightarrow> val list \<Rightarrow> 'w \<Rightarrow> 'w \<times> bool"

text \<open>
  The option keys the code reads from a listener's, a type's or the composed options;
  \<open>None\<close> is an absent key.
\<close>

record 'w opts =
  once :: "bool option"
  setupEvent :: "(lid \<Rightarrow> event \<Rightarrow> 'w \<Rightarrow> 'w) option"
  setupListener :: "(lid \<Rightarrow> 'w \<Rightarrow> 'w) option"

definition no_opts :: "'w opts" where
  "no_opts = \<lparr>once = None, setupEvent = None, setupListener = None\<rparr>"

text \<open>\<open>Object.assign({}, a, b)\<close> on these keys: a key of \<open>b\<close> replaces the key of \<open>a\<close>.\<close>

definition assign :: "'w opts \<Rightarrow> 'w opts \<Rightarrow> 'w opts" where
  "assign a b =
     \<lparr>once = (case once b of None \<Rightarrow> once a | Some v \<Rightarrow> Some v),
      setupEvent = (case setupEvent b of None \<Rightarrow> setupEvent a | Some f \<Rightarrow> Some f),
      setupListener = (case setupListener b of None \<Rightarrow> setupListener a | Some f \<Rightarrow> Some f)\<rparr>"

text \<open>
  A handler is a function or an object with a \<open>handleEvent\<close> method. A value
  offered as a handler is one of the two, or anything else (\<open>None\<close>), which
  \<open>isListener\<close> rejects.
\<close>

datatype 'w handler = HFun "'w callback" | HObj "'w callback"

type_synonym 'w hval = "'w handler option"

definition isListener :: "'w hval \<Rightarrow> bool" where
  "isListener v = (v \<noteq> None)"

record 'w listener =
  handler :: "'w handler"
  eventTypes :: sid
  l_options :: "'w opts"

text \<open>The listener specification \<open>makeListener\<close> hands to the Listener constructor.\<close>

record 'w spec =
  spec_listener :: "'w hval"
  spec_handler :: "'w hval"
  spec_eventTypes :: tyarg
  spec_eventNames :: tyarg
  spec_keys :: "'w opts"
  spec_options :: "'w opts"

text \<open>\<open>LumEventData\<close> of the registry: \<open>stateData\<close> is \<open>None\<close> while the property is absent.\<close>

record eventdata =
  oneTime :: bool
  keepState :: int
  stateData :: "eid list option"

definition stateful :: "eventdata \<Rightarrow> bool" where
  "stateful d = (keepState d > 0)"

text \<open>The argument of \<open>set\<close>: each key present or absent.\<close>

record setopts =
  so_oneTime :: "bool option"
  so_keepState :: "int option"
  so_stateful :: "bool option"

text \<open>
  The registry and the object store. The compiled registry options are the fields
  \<open>delimiter\<close> (\<open>String.prototype.split\<close> with the configured delimiter),
  \<open>multiMatch\<close>, \<open>wildcard\<close> and \<open>r_opts\<close> (the other keys the Event and Listener
  constructors read). \<open>eventData\<close> is the table that \<open>set\<close> maintains.
  \<open>typeDataFor\<close> is the property of that name, which the Event constructor reads
  (\<open>reg.typeDataFor.get(type)\<close>). The Registry class neither declares nor assigns
  it: it is absent (\<open>None\<close>) in every registry the constructor builds, no operation
  changes it, and it holds a table only where code outside the sources has assigned
  one. \<open>getTargets\<close> is the constructor-assigned callback. \<open>world\<close> is the
  application state the callbacks act on.
\<close>

record 'w state =
  delimiter :: "string \<Rightarrow> string list"
  multiMatch :: bool
  wildcard :: etype
  r_opts :: "'w opts"
  allListeners :: "lid list"
  listenersFor :: "etype \<Rightarrow> lid list option"
  eventData :: "etype \<Rightarrow> eventdata option"
  typeDataFor :: "(etype \<Rightarrow> 'w opts option) option"
  getTargets :: "'w \<Rightarrow> target list"
  listeners :: "'w listener list"
  sets :: "etype list list"
  arrays :: "val list list"
  events :: "event list"
  world :: 'w

text \<open>The status object of one \<open>emit\<close> call (\<open>sti\<close>).\<close>

record status =
  st_eventTypes :: sid
  st_multiMatch :: bool
  onceRemoved :: "lid list"
  stopEmitting :: bool
  emitted :: "eid list"
  st_targets :: "target list"
  targetListeners :: "lid list option"

subsection \<open>Splitting names\<close>

text \<open>White space as \<open>trim\<close> and \<open>\s\<close> see it, among the characters of one byte.\<close>

definition is_space :: "char \<Rightarrow> bool" where
  "is_space c = (of_char c \<in> {9, 10, 11, 12, 13, 32, 160 :: nat})"

definition trim :: "string \<Rightarrow> string" where
  "trim s = rev (dropWhile is_space (rev (dropWhile is_space s)))"

text \<open>\<open>s.split(/\s+/)\<close>, the default delimiter.\<close>

function split_ws :: "string \<Rightarrow> string list" where
  "split_ws s =
     (let tok = takeWhile (\<lambda>c. \<not> is_space c) s;
          rest = dropWhile (\<lambda>c. \<not> is_space c) s
      in if rest = [] then [tok] else tok # split_ws (dropWhile is_space rest))"
  by pat_completeness auto
termination
proof (relation "measure length")
  show "wf (measure length)" by simp
next
  fix s :: string and tok rest
  assume r: "rest = dropWhile (\<lambda>c. \<not> is_space c) s" and ne: "rest \<noteq> []"
  from ne obtain c cs where rc: "rest = c # cs" by (cases rest) auto
  have "dropWhile (\<lambda>c. \<not> is_space c) s = c # cs" using r rc by simp
  then have "is_space c" by (simp add: dropWhile_eq_Cons_conv)
  then have "length (dropWhile is_space rest) \<le> length cs"
    using rc length_dropWhile_le [of is_space cs] by simp
  moreover have "length rest \<le> length s"
    using r length_dropWhile_le [of "\<lambda>c. \<not> is_space c" s] by simp
  ultimately show "(dropWhile is_space rest, s) \<in> measure length"
    using rc by simp
qed

declare split_ws.simps [simp del]

text \<open>
  \<open>splitNames\<close>: \<open>new Set(names.trim().split(this.options.delimiter))\<close>, given by the
  elements of the new Set.
\<close>

definition splitNames :: "'w state \<Rightarrow> string \<Rightarrow> etype list" where
  "splitNames s names = new_Set (map Str (delimiter s (trim names)))"

definition alloc_set :: "etype list \<Rightarrow> 'w state \<Rightarrow> sid \<times> 'w state" where
  "alloc_set xs s = (length (sets s), s\<lparr>sets := sets s @ [xs]\<rparr>)"

definition getEventTypes :: "tyarg \<Rightarrow> 'w state \<Rightarrow> error + (sid \<times> 'w state)" where
  "getEventTypes types s =
     (case types of
        TStr n \<Rightarrow> Inr (alloc_set (splitNames s n) s)
      | TSym y d \<Rightarrow> Inr (alloc_set (new_Set [Sym y d]) s)
      | TSet a \<Rightarrow> Inr (a, s)
      | TIter xs \<Rightarrow> Inr (alloc_set (new_Set xs) s)
      | TNullish \<Rightarrow> Inl (TypeError ''Invalid event names'')
      | TOther \<Rightarrow> Inl (TypeError ''Invalid event names''))"

subsection \<open>The Event constructor\<close>

text \<open>The placeholder name of a symbol without description, U+203D in UTF-8.\<close>

definition event_name :: "etype \<Rightarrow> string" where
  "event_name ty =
     (case ty of
        Str n \<Rightarrow> n
      | Sym y d \<Rightarrow> (case d of Some n \<Rightarrow> n | None \<Rightarrow> [CHR 0xE2, CHR 0x80, CHR 0xBD]))"

text \<open>\<open>args[0]\<close>, undefined for an empty array; and \<open>ao instanceof LumEvent\<close>.\<close>

definition first_arg :: "val list \<Rightarrow> val" where
  "first_arg as = (case as of [] \<Rightarrow> Undef | v # _ \<Rightarrow> v)"

fun as_Event :: "val \<Rightarrow> eid option" where
  "as_Event (Ev p) = Some p"
| "as_Event _ = None"

text \<open>
  \<open>new Event(listener, target, type, args, status)\<close>. Its second statement is
  \<open>this.typeData = reg.typeDataFor.get(type)\<close>: where the registry has no
  \<open>typeDataFor\<close> the constructor throws there, before any field of the Event is set,
  and the state is as it was. Otherwise the new Event's address is the next free
  one; \<open>this.args = args\<close> stores the reference it was given, and on the forwarding
  path \<open>args.shift()\<close> removes the first element of that array in place. The status
  of \<open>emit\<close> has no \<open>options\<close> key, so the composed options are those of the
  registry, the type and the listener.
\<close>

definition new_Event ::
  "lid \<Rightarrow> target \<Rightarrow> etype \<Rightarrow> aid \<Rightarrow> 'w state \<Rightarrow> (error \<times> 'w state) + (eid \<times> 'w state)" where
  "new_Event l tg ty a s =
     (case typeDataFor s of
        None \<Rightarrow> Inl (undefined_read, s)
      | Some table \<Rightarrow>
          (let opts = assign (assign (r_opts s)
                         (case table ty of None \<Rightarrow> no_opts | Some d \<Rightarrow> d))
                         (l_options (listeners s ! l));
               self = length (events s);
               ev0 = \<lparr>eventListener = l, args = a, target = tg, evtype = ty,
                      name = event_name ty, options_once = once opts,
                      data = Null, prevEvent = None, origEvent = self\<rparr>;
               ao = first_arg (arrays s ! a);
               (ev, s1) =
                 (if isObj ao then
                    (case as_Event ao of
                       Some p \<Rightarrow>
                         (ev0\<lparr>prevEvent := Some p,
                              origEvent := origEvent (events s ! p),
                              data := data (events s ! p)\<rparr>,
                          s\<lparr>arrays := (arrays s)[a := tl (arrays s ! a)]\<rparr>)
                     | None \<Rightarrow> (ev0\<lparr>data := ao\<rparr>, s))
                  else (ev0, s));
               s2 = s1\<lparr>events := events s1 @ [ev]\<rparr>
           in Inr (self,
                   case setupEvent opts of
                     None \<Rightarrow> s2
                   | Some f \<Rightarrow> s2\<lparr>world := f l ev (world s2)\<rparr>)))"

subsection \<open>The Listener class\<close>

definition makeOpts :: "'w spec \<Rightarrow> 'w opts" where
  "makeOpts sp = assign (spec_keys sp) (spec_options sp)"

definition new_Listener :: "'w spec \<Rightarrow> 'w state \<Rightarrow> error + (lid \<times> 'w state)" where
  "new_Listener sp s =
     (if \<not> isListener (spec_listener sp) \<and> \<not> isListener (spec_handler sp)
      then Inl (TypeError ''Invalid listener/handler in spec'')
      else
        let h = (if isListener (spec_listener sp) then the (spec_listener sp)
                 else the (spec_handler sp));
            opts = makeOpts sp;
            evs = (case spec_eventTypes sp of TNullish \<Rightarrow> spec_eventNames sp | t \<Rightarrow> t)
        in case getEventTypes evs s of
             Inl e \<Rightarrow> Inl e
           | Inr (ets, s1) \<Rightarrow>
               let l = length (listeners s1);
                   s2 = s1\<lparr>listeners := listeners s1 @
                          [\<lparr>handler = h, eventTypes = ets, l_options = opts\<rparr>]\<rparr>;
                   setup = (case setupListener opts of
                              None \<Rightarrow> setupListener (r_opts s2)
                            | Some f \<Rightarrow> Some f)
               in Inr (l, case setup of
                            None \<Rightarrow> s2
                          | Some f \<Rightarrow> s2\<lparr>world := f l (world s2)\<rparr>))"

text \<open>\<open>hasEvents\<close>: \<open>this.eventTypes.size > 0\<close>.\<close>

definition hasEvents :: "'w state \<Rightarrow> lid \<Rightarrow> bool" where
  "hasEvents s l = (sets s ! eventTypes (listeners s ! l) \<noteq> [])"

text \<open>
  \<open>emitEvent\<close>: build the Event (an exception of the constructor leaves
  \<open>emitEvent\<close> at once), call the handler (a function with the target as receiver,
  an object through its \<open>handleEvent\<close>), note a \<open>once\<close> listener in
  \<open>status.onceRemoved\<close>, return the Event.
\<close>

definition emitEvent ::
  "lid \<Rightarrow> etype \<Rightarrow> target \<Rightarrow> aid \<Rightarrow> status \<Rightarrow> 'w state \<Rightarrow>
   (error \<times> 'w state) + (eid \<times> status \<times> 'w state)" where
  "emitEvent l ty tg a sti s =
     (case new_Event l tg ty a s of
        Inl err \<Rightarrow> Inl err
      | Inr (e, s1) \<Rightarrow>
          (let ev = events s1 ! e;
               (w, stop) =
                 (case handler (listeners s1 ! l) of
                    HFun f \<Rightarrow> f ev (arrays s1 ! args ev) (world s1)
                  | HObj f \<Rightarrow> f ev (arrays s1 ! args ev) (world s1));
               sti1 = (if stop then sti\<lparr>stopEmitting := True\<rparr> else sti);
               sti2 = (if options_once ev = Some True
                       then sti1\<lparr>onceRemoved := set_add (onceRemoved sti1) l\<rparr>
                       else sti1)
           in Inr (e, sti2, s1\<lparr>world := w\<rparr>)))"

subsection \<open>Registering and removing listeners\<close>

text \<open>The arguments of \<open>makeListener\<close>, by their number and kind.\<close>

datatype 'w largs =
    NoArgs
  | OneSpec "'w spec"
  | Positional tyarg "'w hval" "'w spec"
  | TooMany

definition makeListener :: "'w largs \<Rightarrow> 'w state \<Rightarrow> error + (lid \<times> 'w state)" where
  "makeListener as s =
     (case as of
        NoArgs \<Rightarrow> Inl (RangeError ''Invalid number of arguments'')
      | TooMany \<Rightarrow> Inl (RangeError ''Invalid number of arguments'')
      | OneSpec sp \<Rightarrow> new_Listener sp s
      | Positional t h sp \<Rightarrow> new_Listener (sp\<lparr>spec_eventTypes := t, spec_handler := h\<rparr>) s)"

fun add_types :: "lid \<Rightarrow> etype list \<Rightarrow> 'w state \<Rightarrow> 'w state" where
  "add_types l [] s = s"
| "add_types l (et # ets) s =
     add_types l ets
       (s\<lparr>listenersFor := (listenersFor s)
            (et \<mapsto> set_add (case listenersFor s et of Some lset \<Rightarrow> lset | None \<Rightarrow> []) l)\<rparr>)"

definition add :: "val \<Rightarrow> 'w state \<Rightarrow> error + 'w state" where
  "add v s =
     (case v of
        Lsnr l \<Rightarrow>
          Inr (add_types l (sets s ! eventTypes (listeners s ! l))
                 (s\<lparr>allListeners := set_add (allListeners s) l\<rparr>))
      | _ \<Rightarrow> Inl (TypeError ''Invalid listener instance''))"

definition listen :: "'w largs \<Rightarrow> 'w state \<Rightarrow> error + (lid \<times> 'w state)" where
  "listen as s =
     (case makeListener as s of
        Inl e \<Rightarrow> Inl e
      | Inr (l, s1) \<Rightarrow>
          (case add (Lsnr l) s1 of Inl e \<Rightarrow> Inl e | Inr s2 \<Rightarrow> Inr (l, s2)))"

text \<open>\<open>once\<close>: \<open>listen\<close>, then \<open>listener.options.once = true\<close>.\<close>

definition once_r :: "'w largs \<Rightarrow> 'w state \<Rightarrow> error + (lid \<times> 'w state)" where
  "once_r as s =
     (case listen as s of
        Inl e \<Rightarrow> Inl e
      | Inr (l, s1) \<Rightarrow>
          Inr (l, s1\<lparr>listeners := (listeners s1)
                 [l := (listeners s1 ! l)\<lparr>l_options := (l_options (listeners s1 ! l))\<lparr>once := Some True\<rparr>\<rparr>]\<rparr>))"

definition removeAll_r :: "'w state \<Rightarrow> 'w state" where
  "removeAll_r s = s\<lparr>allListeners := [], listenersFor := (\<lambda>_. None)\<rparr>"

fun remove_from :: "lid \<Rightarrow> etype list \<Rightarrow> 'w state \<Rightarrow> 'w state" where
  "remove_from l [] s = s"
| "remove_from l (en # ens) s =
     remove_from l ens
       (case listenersFor s en of
          None \<Rightarrow> s
        | Some lset \<Rightarrow> s\<lparr>listenersFor := (listenersFor s)(en \<mapsto> removeAll l lset)\<rparr>)"

fun removeListeners :: "lid list \<Rightarrow> 'w state \<Rightarrow> 'w state" where
  "removeListeners [] s = s"
| "removeListeners (l # ls) s =
     removeListeners ls
       (if l \<in> set (allListeners s)
        then remove_from l (sets s ! eventTypes (listeners s ! l))
               (s\<lparr>allListeners := removeAll l (allListeners s)\<rparr>)
        else s)"

text \<open>
  \<open>removeEvents\<close>. The inner loop deletes the type from each listener's own Set and
  removes a listener that has no type left; then the type's listener Set is cleared.
\<close>

fun strip_type :: "etype \<Rightarrow> lid list \<Rightarrow> 'w state \<Rightarrow> 'w state" where
  "strip_type et [] s = s"
| "strip_type et (l # ls) s =
     (let a = eventTypes (listeners s ! l);
          s1 = s\<lparr>sets := (sets s)[a := removeAll et (sets s ! a)]\<rparr>
      in strip_type et ls (if \<not> hasEvents s1 l then removeListeners [l] s1 else s1))"

fun removeEvents :: "etype list \<Rightarrow> 'w state \<Rightarrow> 'w state" where
  "removeEvents [] s = s"
| "removeEvents (et # ets) s =
     removeEvents ets
       (case listenersFor s et of
          None \<Rightarrow> s
        | Some eventListeners \<Rightarrow>
            (let s1 = strip_type et eventListeners s
             in s1\<lparr>listenersFor := (listenersFor s1)(et \<mapsto> [])\<rparr>))"

definition token_of :: "val \<Rightarrow> etype option" where
  "token_of v = (case v of StrV n \<Rightarrow> Some (Str n) | SymV y d \<Rightarrow> Some (Sym y d) | _ \<Rightarrow> None)"

definition remove_r :: "val \<Rightarrow> 'w state \<Rightarrow> error + 'w state" where
  "remove_r what s =
     (if token_of what = Some (wildcard s) then Inr (removeAll_r s)
      else case what of
             StrV n \<Rightarrow> Inr (removeEvents (splitNames s n) s)
           | SymV y d \<Rightarrow> Inr (removeEvents [Sym y d] s)
           | Lsnr l \<Rightarrow> Inr (removeListeners [l] s)
           | _ \<Rightarrow> Inl (TypeError ''Invalid event name or listener instance''))"

subsection \<open>Emitting\<close>

text \<open>
  The three nested loops of \<open>emit\<close>, innermost first. \<open>break emitting\<close> leaves all
  three: the flag that caused it is still set when the outer loops look at it. An
  exception leaves all three as well, and \<open>emit\<close> with them: the result is the error
  and the state in which it was raised.
\<close>

definition called :: "status \<Rightarrow> lid list" where
  "called sti = (case targetListeners sti of Some c \<Rightarrow> c | None \<Rightarrow> [])"

fun emit_listeners ::
  "etype \<Rightarrow> target \<Rightarrow> aid \<Rightarrow> lid list \<Rightarrow> status \<times> 'w state \<Rightarrow>
   (error \<times> 'w state) + (status \<times> 'w state)" where
  "emit_listeners ename tg a [] (sti, s) = Inr (sti, s)"
| "emit_listeners ename tg a (lsnr # ls) (sti, s) =
     (if st_multiMatch sti \<or> lsnr \<notin> set (called sti) then
        (case emitEvent lsnr ename tg a
                (sti\<lparr>targetListeners := Some (set_add (called sti) lsnr)\<rparr>) s of
           Inl err \<Rightarrow> Inl err
         | Inr (e, sti2, s2) \<Rightarrow>
             (if stopEmitting sti2 then Inr (sti2\<lparr>emitted := emitted sti2 @ [e]\<rparr>, s2)
              else emit_listeners ename tg a ls (sti2\<lparr>emitted := emitted sti2 @ [e]\<rparr>, s2)))
      else emit_listeners ename tg a ls (sti, s))"

fun emit_types ::
  "lid list option \<Rightarrow> target \<Rightarrow> aid \<Rightarrow> etype list \<Rightarrow> status \<times> 'w state \<Rightarrow>
   (error \<times> 'w state) + (status \<times> 'w state)" where
  "emit_types wilds tg a [] (sti, s) = Inr (sti, s)"
| "emit_types wilds tg a (ename # ens) (sti, s) =
     (case listenersFor s ename of
        None \<Rightarrow> emit_types wilds tg a ens (sti, s)
      | Some lset \<Rightarrow>
          (case emit_listeners ename tg a
                  (case wilds of None \<Rightarrow> lset | Some ws \<Rightarrow> set_union lset ws) (sti, s) of
             Inl err \<Rightarrow> Inl err
           | Inr (sti1, s1) \<Rightarrow>
               (if stopEmitting sti1 then Inr (sti1, s1)
                else emit_types wilds tg a ens (sti1, s1))))"

fun emit_targets ::
  "lid list option \<Rightarrow> aid \<Rightarrow> target list \<Rightarrow> status \<times> 'w state \<Rightarrow>
   (error \<times> 'w state) + (status \<times> 'w state)" where
  "emit_targets wilds a [] (sti, s) = Inr (sti, s)"
| "emit_targets wilds a (tg # tgs) (sti, s) =
     (case emit_types wilds tg a (sets s ! st_eventTypes sti)
             (sti\<lparr>targetListeners := Some []\<rparr>, s) of
        Inl err \<Rightarrow> Inl err
      | Inr (sti1, s1) \<Rightarrow>
          (if stopEmitting sti1 then Inr (sti1, s1)
           else emit_targets wilds a tgs (sti1, s1)))"

text \<open>
  \<open>emit_pass\<close> is the body of \<open>emit\<close> up to the end of the \<open>emitting\<close> loop: the status
  is built, the rest arguments become a new array, the targets are resolved (a result
  of \<open>getTargets\<close> that is not a Set is copied into one), the wildcard listeners are
  looked up once, and the loops run.
\<close>

definition emit_pass ::
  "tyarg \<Rightarrow> val list \<Rightarrow> 'w state \<Rightarrow> (error \<times> 'w state) + (status \<times> 'w state)" where
  "emit_pass eventTypes' args' s =
     (case getEventTypes eventTypes' s of
        Inl e \<Rightarrow> Inl (e, s)
      | Inr (ets, s0) \<Rightarrow>
          (let a = length (arrays s0);
               s1 = s0\<lparr>arrays := arrays s0 @ [args']\<rparr>;
               sti = \<lparr>st_eventTypes = ets, st_multiMatch = multiMatch s1,
                      onceRemoved = [], stopEmitting = False, emitted = [],
                      st_targets = new_Set (getTargets s1 (world s1)),
                      targetListeners = None\<rparr>;
               wilds = listenersFor s1 (wildcard s1)
           in emit_targets wilds a (st_targets sti) (sti, s1)))"

text \<open>
  \<open>emit\<close>: after the loops the \<open>targetListeners\<close> property is deleted and every
  listener of \<open>onceRemoved\<close> is passed to \<open>removeListeners\<close>. Nothing of this is done
  when the loops were left by an exception.
\<close>

definition emit ::
  "tyarg \<Rightarrow> val list \<Rightarrow> 'w state \<Rightarrow> (error \<times> 'w state) + (status \<times> 'w state)" where
  "emit eventTypes' args' s =
     (case emit_pass eventTypes' args' s of
        Inl err \<Rightarrow> Inl err
      | Inr (sti, s1) \<Rightarrow>
          Inr (sti\<lparr>targetListeners := None\<rparr>,
               foldl (\<lambda>s' lsnr. removeListeners [lsnr] s') s1 (onceRemoved sti)))"

subsection \<open>Type options\<close>

definition set_r :: "etype \<Rightarrow> setopts \<Rightarrow> 'w state \<Rightarrow> 'w state" where
  "set_r ty opts s =
     (let d = (case eventData s ty of
                 Some d \<Rightarrow> d
               | None \<Rightarrow> \<lparr>oneTime = False, keepState = 0, stateData = None\<rparr>);
          d1 = (case so_oneTime opts of Some b \<Rightarrow> d\<lparr>oneTime := b\<rparr> | None \<Rightarrow> d);
          d2 = (case so_keepState opts of
                  Some n \<Rightarrow> d1\<lparr>keepState := n\<rparr>
                | None \<Rightarrow>
                    (case so_stateful opts of
                       Some True \<Rightarrow> d1\<lparr>keepState := 10\<rparr>
                     | Some False \<Rightarrow> d1\<lparr>keepState := 0\<rparr>
                     | None \<Rightarrow> d1));
          d3 = (if stateful d2 \<and> stateData d2 = None then d2\<lparr>stateData := Some []\<rparr>
                else if stateData d2 \<noteq> None \<and> \<not> stateful d2 then d2\<lparr>stateData := None\<rparr>
                else d2)
      in s\<lparr>eventData := (eventData s)(ty \<mapsto> d3)\<rparr>)"

subsection \<open>Registries used as concrete inputs\<close>

text \<open>
  A registry as the constructor leaves it for a fixed collection of targets and no
  options: the default delimiter, \<open>multiMatch\<close> false, wildcard \<open>"*"\<close>, the three
  tables \<open>allListeners\<close>, \<open>listenersFor\<close> and \<open>eventData\<close> empty, no \<open>typeDataFor\<close>.
\<close>

definition new_Registry :: "target list \<Rightarrow> 'w \<Rightarrow> 'w state" where
  "new_Registry tgs w =
     \<lparr>delimiter = split_ws, multiMatch = False, wildcard = Str ''*'', r_opts = no_opts,
      allListeners = [], listenersFor = (\<lambda>_. None), eventData = (\<lambda>_. None),
      typeDataFor = None, getTargets = (\<lambda>_. new_Set tgs),
      listeners = [], sets = [], arrays = [], events = [], world = w\<rparr>"

text \<open>A handler that appends what it was called with to a log, the application state.\<close>

definition log_handler :: "(lid \<times> etype \<times> target) list callback" where
  "log_handler ev as w = (w @ [(eventListener ev, evtype ev, target ev)], False)"

definition plain_spec :: "'w spec" where
  "plain_spec =
     \<lparr>spec_listener = None, spec_handler = None, spec_eventTypes = TNullish,
      spec_eventNames = TNullish, spec_keys = no_opts, spec_options = no_opts\<rparr>"

text \<open>\<open>registry.listen(names, f)\<close> for a function \<open>f\<close>, keeping the registry only.\<close>

definition on :: "string \<Rightarrow> 'w callback \<Rightarrow> 'w state \<Rightarrow> 'w state" where
  "on n f s =
     (case listen (Positional (TStr n) (Some (HFun f)) plain_spec) s of
        Inr (l, s') \<Rightarrow> s'
      | Inl e \<Rightarrow> s)"

text \<open>One target, one listener, registered under the wildcard.\<close>

definition wild_only :: "(lid \<times> etype \<times> target) list state" where
  "wild_only = on ''*'' log_handler (new_Registry [1] [])"

text \<open>
  \<open>set("s", {keepState: 2})\<close> and \<open>listen("s", h)\<close> on a new registry with one target.
\<close>

definition stateful_demo :: "(lid \<times> etype \<times> target) list state" where
  "stateful_demo =
     on ''s'' log_handler
       (set_r (Str ''s'') \<lparr>so_oneTime = None, so_keepState = Some 2, so_stateful = None\<rparr>
          (new_Registry [1] []))"

text \<open>
  One listener for \<open>"x"\<close> and \<open>"y"\<close> on a new registry with two targets and the
  default \<open>multiMatch = false\<close>.
\<close>

definition two_types_demo :: "(lid \<times> etype \<times> target) list state" where
  "two_types_demo = on ''x y'' log_handler (new_Registry [1, 2] [])"

text \<open>
  A registry made with \<open>multiMatch\<close> true over two targets, and one listener
  registered by \<open>once("a b", h)\<close>.
\<close>

definition once_demo :: "(lid \<times> etype \<times> target) list state" where
  "once_demo =
     (case once_r (Positional (TStr ''a b'') (Some (HFun log_handler)) plain_spec)
             ((new_Registry [1, 2] [])\<lparr>multiMatch := True\<rparr>) of
        Inr (l, s) \<Rightarrow> s
      | Inl e \<Rightarrow> new_Registry [1, 2] [])"

text \<open>A new registry in whose store the caller has made the Set \<open>{"a", "b"}\<close>.\<close>

definition caller_set_demo :: "unit state" where
  "caller_set_demo = (new_Registry [1] ())\<lparr>sets := [[Str ''a'', Str ''b'']]\<rparr>"

subsection \<open>Notions used in the statements and proofs\<close>

text \<open>
  Two states with the same registry: the same options, tables and target source, the
  same Listener instances and the same Set objects.
\<close>

definition same_registry :: "'w state \<Rightarrow> 'w state \<Rightarrow> bool" where
  "same_registry s s' =
     (delimiter s' = delimiter s \<and> multiMatch s' = multiMatch s \<and> wildcard s' = wildcard s \<and>
      r_opts s' = r_opts s \<and> allListeners s' = allListeners s \<and>
      listenersFor s' = listenersFor s \<and> eventData s' = eventData s \<and>
      typeDataFor s' = typeDataFor s \<and> getTargets s' = getTargets s \<and>
      listeners s' = listeners s \<and> sets s' = sets s)"

text \<open>The state a call leaves behind, whether it returned or threw.\<close>

definition state_after :: "(error \<times> 'w state) + ('x \<times> 'w state) \<Rightarrow> 'w state" where
  "state_after r = (case r of Inl (e, s) \<Rightarrow> s | Inr (x, s) \<Rightarrow> s)"

definition after_emit :: "tyarg \<Rightarrow> val list \<Rightarrow> 'w state \<Rightarrow> 'w state" where
  "after_emit t as s = state_after (emit t as s)"

text \<open>
  The \<open>setupListener\<close> callback the Listener constructor calls for the arguments of
  \<open>listen\<close>: the listener's own, else the registry's.
\<close>

definition listener_setup :: "'w largs \<Rightarrow> 'w state \<Rightarrow> (lid \<Rightarrow> 'w \<Rightarrow> 'w) option" where
  "listener_setup as s =
     (case as of
        OneSpec sp \<Rightarrow>
          (case setupListener (makeOpts sp) of None \<Rightarrow> setupListener (r_opts s) | Some f \<Rightarrow> Some f)
      | Positional t h sp \<Rightarrow>
          (case setupListener (makeOpts sp) of None \<Rightarrow> setupListener (r_opts s) | Some f \<Rightarrow> Some f)
      | _ \<Rightarrow> None)"

text \<open>
  The event types a value names, in the words of the specification: a string is split
  on the delimiter, a symbol stands for itself, a Set or another iterable for its
  elements.
\<close>

definition named_types :: "'w state \<Rightarrow> tyarg \<Rightarrow> etype set" where
  "named_types s t =
     (case t of
        TStr n \<Rightarrow> Str ` set (delimiter s (trim n))
      | TSym y d \<Rightarrow> {Sym y d}
      | TSet b \<Rightarrow> set (sets s ! b)
      | TIter xs \<Rightarrow> set xs
      | _ \<Rightarrow> {})"

text \<open>
  Some type of the list has an entry in \<open>listenersFor\<close> whose candidates, its own
  listeners together with the wildcard's, are not empty.
\<close>

definition has_candidates :: "'w state \<Rightarrow> lid list option \<Rightarrow> etype list \<Rightarrow> bool" where
  "has_candidates s wilds tys =
     list_ex (\<lambda>ty. case listenersFor s ty of
                     None \<Rightarrow> False
                   | Some lset \<Rightarrow>
                       (case wilds of None \<Rightarrow> lset | Some ws \<Rightarrow> set_union lset ws) \<noteq> []) tys"

section \<open>Properties\<close>

subsection \<open>Sets\<close>

lemma set_add_set [simp]: "set (set_add xs x) = insert x (set xs)"
  by (auto simp: set_add_def)

lemma set_add_distinct [simp]: "distinct xs \<Longrightarrow> distinct (set_add xs x)"
  by (simp add: set_add_def)

lemma foldl_set_add_set: "set (foldl set_add xs ys) = set xs \<union> set ys"
  by (induction ys arbitrary: xs) auto

lemma foldl_set_add_distinct: "distinct xs \<Longrightarrow> distinct (foldl set_add xs ys)"
  by (induction ys arbitrary: xs) auto

lemma new_Set_set [simp]: "set (new_Set xs) = set xs"
  by (simp add: new_Set_def foldl_set_add_set)

lemma new_Set_distinct [simp]: "distinct (new_Set xs)"
  by (simp add: new_Set_def foldl_set_add_distinct)

lemma set_union_set [simp]: "set (set_union xs ys) = set xs \<union> set ys"
  by (simp add: set_union_def foldl_set_add_set)

lemma new_Set_empty [simp]: "new_Set xs = [] \<longleftrightarrow> xs = []"
  using new_Set_set [of xs] by (metis set_empty)

subsection \<open>Types without a listener Set of their own\<close>

lemma emit_types_no_key:
  "\<forall>ty\<in>set tys. listenersFor s ty = None \<Longrightarrow>
   emit_types wilds tg a tys (sti, s) = Inr (sti, s)"
  by (induction tys) simp_all

lemma emit_targets_no_key:
  "\<forall>ty\<in>set (sets s ! st_eventTypes sti). listenersFor s ty = None \<Longrightarrow>
   \<exists>sti'. emit_targets wilds a tgs (sti, s) = Inr (sti', s) \<and> emitted sti' = emitted sti \<and>
          onceRemoved sti' = onceRemoved sti \<and> st_eventTypes sti' = st_eventTypes sti"
proof (induction tgs arbitrary: sti)
  case Nil
  then show ?case by simp
next
  case (Cons tg tgs)
  let ?sti0 = "sti\<lparr>targetListeners := Some []\<rparr>"
  have t: "emit_types wilds tg a (sets s ! st_eventTypes ?sti0) (?sti0, s) = Inr (?sti0, s)"
    using Cons.prems by (intro emit_types_no_key) simp
  show ?case
  proof (cases "stopEmitting sti")
    case True
    then show ?thesis using t by simp
  next
    case False
    have "\<forall>ty\<in>set (sets s ! st_eventTypes ?sti0). listenersFor s ty = None"
      using Cons.prems by simp
    from Cons.IH [OF this] False t show ?thesis by simp
  qed
qed

lemma getEventTypes_frame:
  assumes "getEventTypes t s = Inr (a, s0)"
  shows "s0 = s\<lparr>sets := sets s0\<rparr>"
  using assms by (auto simp: getEventTypes_def alloc_set_def split: tyarg.splits)

lemma emit_no_key:
  assumes ets: "getEventTypes t s = Inr (a, s0)"
      and nokey: "\<forall>ty\<in>set (sets s0 ! a). listenersFor s ty = None"
  shows "\<exists>sti s'. emit t as s = Inr (sti, s') \<and> emitted sti = [] \<and>
           events s' = events s \<and> world s' = world s \<and>
           allListeners s' = allListeners s \<and> listenersFor s' = listenersFor s"
proof -
  let ?s1 = "s0\<lparr>arrays := arrays s0 @ [as]\<rparr>"
  let ?sti = "\<lparr>st_eventTypes = a, st_multiMatch = multiMatch ?s1,
               onceRemoved = [], stopEmitting = False, emitted = [],
               st_targets = new_Set (getTargets ?s1 (world ?s1)),
               targetListeners = None\<rparr>"
  have fr: "s0 = s\<lparr>sets := sets s0\<rparr>" by (rule getEventTypes_frame [OF ets])
  have lf: "listenersFor ?s1 = listenersFor s" by (subst fr) simp
  have "\<forall>ty\<in>set (sets ?s1 ! st_eventTypes ?sti). listenersFor ?s1 ty = None"
    using nokey lf by simp
  from emit_targets_no_key [OF this, of "listenersFor ?s1 (wildcard ?s1)"
      "length (arrays s0)" "st_targets ?sti"]
  obtain sti' where r: "emit_targets (listenersFor ?s1 (wildcard ?s1)) (length (arrays s0))
        (st_targets ?sti) (?sti, ?s1) = Inr (sti', ?s1)"
    and e: "emitted sti' = []" and o: "onceRemoved sti' = []"
    by auto
  have p: "emit_pass t as s = Inr (sti', ?s1)"
    using ets r by (simp add: emit_pass_def Let_def)
  have "events ?s1 = events s" "world ?s1 = world s" "allListeners ?s1 = allListeners s"
    by (subst fr, simp)+
  then show ?thesis using p e o lf by (simp add: emit_def)
qed

text \<open>
  Claim C1 says that a listener registered under the wildcard is a candidate for every
  requested type, so that with a wildcard listener and no listener of type \<open>"x"\<close>,
  \<open>emit("x")\<close> still calls it. The loop of \<open>emit\<close> skips a requested type that has
  no entry in \<open>listenersFor\<close> before it looks at the wildcard listeners: whenever
  none of the requested types has an entry, \<open>emit\<close> returns with an empty \<open>emitted\<close>
  list, builds no Event and calls no handler, whatever is registered under the wildcard.
\<close>

theorem emit_skips_wildcard_listener:
  assumes wild: "listenersFor s (wildcard s) = Some ws" "l \<in> set ws"
      and ets: "getEventTypes t s = Inr (a, s0)"
      and nokey: "\<forall>ty\<in>set (sets s0 ! a). listenersFor s ty = None"
  shows "\<exists>sti s'. emit t as s = Inr (sti, s') \<and> emitted sti = [] \<and>
           events s' = events s \<and> world s' = world s"
  using emit_no_key [OF ets nokey, of as] by blast

text \<open>
  The input \<open>listen("*", h)\<close> then \<open>emit("x")\<close> on a registry with one target: the
  wildcard listener is registered, \<open>"x"\<close> has no entry, and nothing is emitted.
\<close>

theorem emit_skips_wildcard_listener_witness:
  "listenersFor wild_only (wildcard wild_only) = Some [0] \<and>
   listenersFor wild_only (Str ''x'') = None \<and>
   (\<exists>sti s'. emit (TStr ''x'') [] wild_only = Inr (sti, s') \<and> emitted sti = [] \<and>
       events s' = events wild_only \<and> world s' = world wild_only)"
proof -
  have a: "listenersFor wild_only (wildcard wild_only) = Some [0]" by code_simp
  have b: "(0::nat) \<in> set [0]" by simp
  have c: "getEventTypes (TStr ''x'') wild_only =
             Inr (length (sets wild_only),
                  wild_only\<lparr>sets := sets wild_only @ [splitNames wild_only ''x'']\<rparr>)"
    by (simp add: getEventTypes_def alloc_set_def)
  have n: "listenersFor wild_only (Str ''x'') = None" by code_simp
  have t: "splitNames wild_only ''x'' = [Str ''x'']" by code_simp
  have d: "\<forall>ty\<in>set (sets (wild_only\<lparr>sets := sets wild_only @ [splitNames wild_only ''x'']\<rparr>) !
              length (sets wild_only)). listenersFor wild_only ty = None"
    using n t by simp
  from emit_skips_wildcard_listener [OF a b c d, of "[]"] a n show ?thesis by simp
qed

subsection \<open>What a dispatch leaves unchanged\<close>

lemma same_registry_refl [simp]: "same_registry s s"
  by (simp add: same_registry_def)

lemma same_registry_trans: "same_registry s s' \<Longrightarrow> same_registry s' s'' \<Longrightarrow> same_registry s s''"
  by (simp add: same_registry_def)

lemma new_Event_same:
  "same_registry s (state_after (new_Event l tg ty a s))"
  by (auto simp: new_Event_def Let_def same_registry_def state_after_def
      split: option.splits if_splits)

lemma emitEvent_same:
  "case emitEvent l ty tg a sti s of
     Inl (e, s') \<Rightarrow> same_registry s s'
   | Inr (e, sti', s') \<Rightarrow> same_registry s s'"
proof (cases "new_Event l tg ty a s")
  case (Inl r)
  then show ?thesis using new_Event_same [where s=s and l=l and tg=tg and ty=ty and a=a]
    by (cases r) (simp add: emitEvent_def state_after_def)
next
  case (Inr r)
  obtain e1 s1 where r: "r = (e1, s1)" by (cases r)
  have sr: "same_registry s s1" using new_Event_same [where s=s and l=l and tg=tg and ty=ty and a=a] Inr r
    by (simp add: state_after_def)
  have "same_registry s (s1\<lparr>world := w\<rparr>)" for w
    using sr by (simp add: same_registry_def)
  then show ?thesis using Inr r
    by (simp add: emitEvent_def Let_def split: prod.splits)
qed

lemma emit_listeners_same:
  "same_registry s (state_after (emit_listeners ty tg a ls (sti, s)))"
proof (induction ls arbitrary: sti s)
  case Nil
  then show ?case by (simp add: state_after_def)
next
  case (Cons l ls)
  show ?case
  proof (cases "st_multiMatch sti \<or> l \<notin> set (called sti)")
    case False
    then show ?thesis using Cons.IH [of s sti] by simp
  next
    case True
    let ?sti1 = "sti\<lparr>targetListeners := Some (set_add (called sti) l)\<rparr>"
    show ?thesis
    proof (cases "emitEvent l ty tg a ?sti1 s")
      case (Inl r)
      then show ?thesis using True emitEvent_same [where l=l and ty=ty and tg=tg and a=a and sti="?sti1" and s=s]
        by (cases r) (simp add: state_after_def)
    next
      case (Inr r)
      obtain e sti2 s2 where r: "r = (e, sti2, s2)" by (cases r)
      have sr: "same_registry s s2" using emitEvent_same [where l=l and ty=ty and tg=tg and a=a and sti="?sti1" and s=s] Inr r by simp
      show ?thesis
      proof (cases "stopEmitting sti2")
        case True
        then show ?thesis using \<open>st_multiMatch sti \<or> l \<notin> set (called sti)\<close> Inr r sr
          by (simp add: state_after_def)
      next
        case False
        have "same_registry s2 (state_after
                (emit_listeners ty tg a ls (sti2\<lparr>emitted := emitted sti2 @ [e]\<rparr>, s2)))"
          by (rule Cons.IH)
        with sr have "same_registry s (state_after
                (emit_listeners ty tg a ls (sti2\<lparr>emitted := emitted sti2 @ [e]\<rparr>, s2)))"
          by (rule same_registry_trans)
        then show ?thesis using False \<open>st_multiMatch sti \<or> l \<notin> set (called sti)\<close> Inr r
          by simp
      qed
    qed
  qed
qed

lemma emit_types_same:
  "same_registry s (state_after (emit_types wilds tg a tys (sti, s)))"
proof (induction tys arbitrary: sti s)
  case Nil
  then show ?case by (simp add: state_after_def)
next
  case (Cons ty tys)
  show ?case
  proof (cases "listenersFor s ty")
    case None
    then show ?thesis using Cons.IH [of s sti] by simp
  next
    case (Some lset)
    let ?ls = "case wilds of None \<Rightarrow> lset | Some ws \<Rightarrow> set_union lset ws"
    note el = emit_listeners_same [where s=s and ty=ty and tg=tg and a=a and ls="?ls" and sti=sti]
    show ?thesis
    proof (cases "emit_listeners ty tg a ?ls (sti, s)")
      case (Inl r)
      then show ?thesis using Some el by (cases r) (simp add: state_after_def)
    next
      case (Inr r)
      obtain sti1 s1 where r: "r = (sti1, s1)" by (cases r)
      have sr: "same_registry s s1" using el Inr r by (simp add: state_after_def)
      show ?thesis
      proof (cases "stopEmitting sti1")
        case True
        then show ?thesis using Some Inr r sr by (simp add: state_after_def)
      next
        case False
        have "same_registry s1 (state_after (emit_types wilds tg a tys (sti1, s1)))"
          by (rule Cons.IH)
        with sr have "same_registry s (state_after (emit_types wilds tg a tys (sti1, s1)))"
          by (rule same_registry_trans)
        then show ?thesis using False Some Inr r by simp
      qed
    qed
  qed
qed

lemma emit_targets_same:
  "same_registry s (state_after (emit_targets wilds a tgs (sti, s)))"
proof (induction tgs arbitrary: sti s)
  case Nil
  then show ?case by (simp add: state_after_def)
next
  case (Cons tg tgs)
  let ?sti0 = "sti\<lparr>targetListeners := Some []\<rparr>"
  note et = emit_types_same [where s=s and wilds=wilds and tg=tg and a=a and tys="sets s ! st_eventTypes ?sti0" and sti="?sti0"]
  show ?case
  proof (cases "emit_types wilds tg a (sets s ! st_eventTypes ?sti0) (?sti0, s)")
    case (Inl r)
    then show ?thesis using et by (cases r) (simp add: state_after_def)
  next
    case (Inr r)
    obtain sti1 s1 where r: "r = (sti1, s1)" by (cases r)
    have sr: "same_registry s s1" using et Inr r by (simp add: state_after_def)
    show ?thesis
    proof (cases "stopEmitting sti1")
      case True
      then show ?thesis using Inr r sr by (simp add: state_after_def)
    next
      case False
      have "same_registry s1 (state_after (emit_targets wilds a tgs (sti1, s1)))"
        by (rule Cons.IH)
      with sr have "same_registry s (state_after (emit_targets wilds a tgs (sti1, s1)))"
        by (rule same_registry_trans)
      then show ?thesis using False Inr r by simp
    qed
  qed
qed

lemma emit_pass_frame:
  "eventData (state_after (emit_pass t as s)) = eventData s \<and>
   typeDataFor (state_after (emit_pass t as s)) = typeDataFor s"
proof (cases "getEventTypes t s")
  case (Inl e)
  then show ?thesis by (simp add: emit_pass_def state_after_def)
next
  case (Inr r)
  obtain a s0 where r: "r = (a, s0)" by (cases r)
  have fr: "s0 = s\<lparr>sets := sets s0\<rparr>" using Inr r by (intro getEventTypes_frame) simp
  let ?s1 = "s0\<lparr>arrays := arrays s0 @ [as]\<rparr>"
  have e1: "eventData ?s1 = eventData s" "typeDataFor ?s1 = typeDataFor s"
    by (subst fr, simp)+
  obtain sti0 wilds tgs where
    "emit_pass t as s = emit_targets wilds (length (arrays s0)) tgs (sti0, ?s1)"
    using Inr r by (simp add: emit_pass_def Let_def)
  with emit_targets_same [where s="?s1" and wilds=wilds and a="length (arrays s0)" and tgs=tgs and sti=sti0] e1
  show ?thesis by (simp add: same_registry_def)
qed

lemma remove_from_frame [simp]:
  "eventData (remove_from l tys s) = eventData s"
  "typeDataFor (remove_from l tys s) = typeDataFor s"
  "sets (remove_from l tys s) = sets s"
  "listeners (remove_from l tys s) = listeners s"
  by (induction tys arbitrary: s) (simp_all split: option.splits)

lemma removeListeners_frame [simp]:
  "eventData (removeListeners ls s) = eventData s"
  "typeDataFor (removeListeners ls s) = typeDataFor s"
  "sets (removeListeners ls s) = sets s"
  "listeners (removeListeners ls s) = listeners s"
  by (induction ls arbitrary: s) simp_all

lemma foldl_removeListeners:
  "foldl (\<lambda>s' lsnr. removeListeners [lsnr] s') s ls = removeListeners ls s"
  by (induction ls arbitrary: s) simp_all

lemma emit_frame:
  "eventData (state_after (emit t as s)) = eventData s \<and>
   typeDataFor (state_after (emit t as s)) = typeDataFor s"
proof (cases "emit_pass t as s")
  case (Inl r)
  then show ?thesis using emit_pass_frame [where t=t and as=as and s=s]
    by (cases r) (simp add: emit_def state_after_def)
next
  case (Inr r)
  obtain sti1 s1 where r: "r = (sti1, s1)" by (cases r)
  have e: "eventData s1 = eventData s" "typeDataFor s1 = typeDataFor s"
    using emit_pass_frame [where t=t and as=as and s=s] Inr r by (simp_all add: state_after_def)
  have "state_after (emit t as s) =
          foldl (\<lambda>s' lsnr. removeListeners [lsnr] s') s1 (onceRemoved sti1)"
    using Inr r by (simp add: emit_def state_after_def)
  then have "state_after (emit t as s) = removeListeners (onceRemoved sti1) s1"
    by (simp only: foldl_removeListeners)
  then show ?thesis using e by simp
qed

text \<open>
  Claim C4 says that every dispatch of a type configured with \<open>keepState = N > 0\<close>
  pushes the Event to the front of the type's history, so that after \<open>N + k\<close> emits
  the history holds the \<open>N\<close> most recent Events. No statement of \<open>emit\<close>, of
  \<open>emitEvent\<close> or of the Event constructor writes \<open>eventData\<close> or a \<open>stateData\<close>
  array: whether the call returns or throws, and whether or not the registry has a
  \<open>typeDataFor\<close> table, the table \<open>eventData\<close> is the same after \<open>emit\<close> as before, so
  a history that \<open>set\<close> created empty stays empty.
\<close>

theorem emit_never_records_history:
  "eventData (after_emit t as s) = eventData s"
  by (simp add: after_emit_def emit_frame)

text \<open>
  \<open>set("s", {keepState: 2})\<close>, \<open>listen("s", h)\<close> and three calls of \<open>emit("s")\<close> on a
  new registry with one target. Each \<open>emit\<close> throws in the Event constructor, the
  handler has logged nothing, and the history of \<open>"s"\<close> is still the empty array that
  \<open>set\<close> made.
\<close>

theorem emit_never_records_history_witness:
  "(case emit (TStr ''s'') [] stateful_demo of
      Inl (e, s') \<Rightarrow> e = undefined_read | Inr r \<Rightarrow> False) \<and>
   world (after_emit (TStr ''s'') [] (after_emit (TStr ''s'') []
      (after_emit (TStr ''s'') [] stateful_demo))) = [] \<and>
   eventData (after_emit (TStr ''s'') [] (after_emit (TStr ''s'') []
      (after_emit (TStr ''s'') [] stateful_demo))) (Str ''s'') =
     Some \<lparr>oneTime = False, keepState = 2, stateData = Some []\<rparr>"
proof -
  have t: "case emit (TStr ''s'') [] stateful_demo of
      Inl (e, s') \<Rightarrow> e = undefined_read | Inr r \<Rightarrow> False"
    by code_simp
  have w: "world (after_emit (TStr ''s'') [] (after_emit (TStr ''s'') []
      (after_emit (TStr ''s'') [] stateful_demo))) = []"
    by code_simp
  have d: "eventData stateful_demo (Str ''s'') =
     Some \<lparr>oneTime = False, keepState = 2, stateData = Some []\<rparr>"
    by code_simp
  show ?thesis using t w d
    by (simp only: emit_never_records_history)
qed

subsection \<open>Dispatch in a registry without the table of type data\<close>

lemma new_Event_no_table:
  "typeDataFor s = None \<Longrightarrow> new_Event l tg ty a s = Inl (undefined_read, s)"
  by (simp add: new_Event_def)

lemma emitEvent_no_table:
  "typeDataFor s = None \<Longrightarrow> emitEvent l ty tg a sti s = Inl (undefined_read, s)"
  by (simp add: emitEvent_def new_Event_no_table)

lemma emit_listeners_no_table:
  assumes "typeDataFor s = None"
  shows "emit_listeners ty tg a ls (sti, s) =
           (if list_ex (\<lambda>l. st_multiMatch sti \<or> l \<notin> set (called sti)) ls
            then Inl (undefined_read, s) else Inr (sti, s))"
  using assms by (induction ls) (simp_all add: emitEvent_no_table)

lemma emit_listeners_first:
  assumes "typeDataFor s = None" and "called sti = []"
  shows "emit_listeners ty tg a ls (sti, s) =
           (if ls \<noteq> [] then Inl (undefined_read, s) else Inr (sti, s))"
  using assms by (cases ls) (simp_all add: emitEvent_no_table)

lemma emit_types_no_table:
  assumes "typeDataFor s = None" and "called sti = []" and "\<not> stopEmitting sti"
  shows "emit_types wilds tg a tys (sti, s) =
           (if has_candidates s wilds tys then Inl (undefined_read, s) else Inr (sti, s))"
  using assms
  by (induction tys)
     (simp_all add: has_candidates_def emit_listeners_first split: option.splits)

lemma emit_targets_no_table:
  assumes "typeDataFor s = None" and "\<not> stopEmitting sti"
  shows "emit_targets wilds a tgs (sti, s) =
           (if tgs \<noteq> [] \<and> has_candidates s wilds (sets s ! st_eventTypes sti)
            then Inl (undefined_read, s)
            else Inr (if tgs = [] then sti else sti\<lparr>targetListeners := Some []\<rparr>, s))"
  using assms
proof (induction tgs arbitrary: sti)
  case Nil
  then show ?case by simp
next
  case (Cons tg tgs)
  let ?sti0 = "sti\<lparr>targetListeners := Some []\<rparr>"
  have t: "emit_types wilds tg a (sets s ! st_eventTypes sti) (?sti0, s) =
             (if has_candidates s wilds (sets s ! st_eventTypes sti)
              then Inl (undefined_read, s) else Inr (?sti0, s))"
    using Cons.prems by (intro emit_types_no_table) (simp_all add: called_def)
  have "emit_targets wilds a tgs (?sti0, s) =
          (if tgs \<noteq> [] \<and> has_candidates s wilds (sets s ! st_eventTypes ?sti0)
           then Inl (undefined_read, s)
           else Inr (if tgs = [] then ?sti0 else ?sti0\<lparr>targetListeners := Some []\<rparr>, s))"
    using Cons.prems by (intro Cons.IH) simp_all
  then show ?case using t Cons.prems(2) by simp
qed

lemma has_candidates_cong:
  "listenersFor s' = listenersFor s \<Longrightarrow> has_candidates s' wilds tys = has_candidates s wilds tys"
  by (simp add: has_candidates_def)

lemma emit_no_table:
  assumes nt: "typeDataFor s = None" and ets: "getEventTypes t s = Inr (a, s0)"
  shows "if getTargets s (world s) \<noteq> [] \<and>
            has_candidates s (listenersFor s (wildcard s)) (sets s0 ! a)
         then emit t as s = Inl (undefined_read, s0\<lparr>arrays := arrays s0 @ [as]\<rparr>)
         else (\<exists>sti. emit t as s = Inr (sti, s0\<lparr>arrays := arrays s0 @ [as]\<rparr>) \<and>
                 emitted sti = [] \<and> onceRemoved sti = [])"
proof -
  let ?s1 = "s0\<lparr>arrays := arrays s0 @ [as]\<rparr>"
  let ?sti = "\<lparr>st_eventTypes = a, st_multiMatch = multiMatch ?s1,
               onceRemoved = [], stopEmitting = False, emitted = [],
               st_targets = new_Set (getTargets ?s1 (world ?s1)),
               targetListeners = None\<rparr>"
  have fr: "s0 = s\<lparr>sets := sets s0\<rparr>" by (rule getEventTypes_frame [OF ets])
  have f: "listenersFor ?s1 = listenersFor s" "typeDataFor ?s1 = typeDataFor s"
    "getTargets ?s1 = getTargets s" "world ?s1 = world s" "wildcard ?s1 = wildcard s"
    by (subst fr, simp)+
  have p: "emit_pass t as s =
             emit_targets (listenersFor s (wildcard s)) (length (arrays s0))
               (new_Set (getTargets s (world s))) (?sti, ?s1)"
    using ets f by (simp add: emit_pass_def Let_def)
  have q: "emit_targets (listenersFor s (wildcard s)) (length (arrays s0))
               (new_Set (getTargets s (world s))) (?sti, ?s1) =
           (if new_Set (getTargets s (world s)) \<noteq> [] \<and>
               has_candidates ?s1 (listenersFor s (wildcard s)) (sets ?s1 ! st_eventTypes ?sti)
            then Inl (undefined_read, ?s1)
            else Inr (if new_Set (getTargets s (world s)) = [] then ?sti
                      else ?sti\<lparr>targetListeners := Some []\<rparr>, ?s1))"
    using nt f(2) by (intro emit_targets_no_table) simp_all
  have h: "has_candidates ?s1 (listenersFor s (wildcard s)) (sets ?s1 ! st_eventTypes ?sti) =
           has_candidates s (listenersFor s (wildcard s)) (sets s0 ! a)"
    using has_candidates_cong [OF f(1)] by simp
  show ?thesis unfolding emit_def p q h by simp
qed

text \<open>
  Claim C2 says that with \<open>multiMatch\<close> false a listener registered for two of the
  requested types is invoked exactly once for each target. In a registry that has no
  \<open>typeDataFor\<close>, which is every registry the constructor builds, \<open>emit\<close> does not get
  that far: as soon as a listener is registered for one of the requested types and
  there is a target, the first Event constructor throws, \<open>emit\<close> ends with that
  TypeError, no Event has been built and no handler has been called.
\<close>

theorem emit_throws_before_first_handler:
  assumes nt: "typeDataFor s = None"
      and ets: "getEventTypes t s = Inr (a, s0)"
      and ty: "ty \<in> set (sets s0 ! a)" "listenersFor s ty = Some ls" "l \<in> set ls"
      and tg: "getTargets s (world s) \<noteq> []"
  shows "\<exists>s'. emit t as s = Inl (undefined_read, s') \<and> world s' = world s \<and>
              events s' = events s"
proof -
  have fr: "s0 = s\<lparr>sets := sets s0\<rparr>" by (rule getEventTypes_frame [OF ets])
  have "(case listenersFor s (wildcard s) of None \<Rightarrow> ls | Some ws \<Rightarrow> set_union ls ws) \<noteq> []"
  proof (cases "listenersFor s (wildcard s)")
    case None
    have "ls \<noteq> []" using ty(3) by (cases ls) simp_all
    then show ?thesis using None by simp
  next
    case (Some ws)
    have "l \<in> set (set_union ls ws)" using ty(3) by simp
    then have "set_union ls ws \<noteq> []" by (cases "set_union ls ws") simp_all
    then show ?thesis using Some by simp
  qed
  then have "has_candidates s (listenersFor s (wildcard s)) (sets s0 ! a)"
    unfolding has_candidates_def list_ex_iff using ty(1,2)
    by (intro bexI [of _ ty]) simp_all
  with emit_no_table [OF nt ets, of as] tg
  have "emit t as s = Inl (undefined_read, s0\<lparr>arrays := arrays s0 @ [as]\<rparr>)" by simp
  moreover have "world (s0\<lparr>arrays := arrays s0 @ [as]\<rparr>) = world s"
    "events (s0\<lparr>arrays := arrays s0 @ [as]\<rparr>) = events s"
    by (subst fr, simp)+
  ultimately show ?thesis by blast
qed

text \<open>
  \<open>listen("x y", h)\<close> on a new registry with two targets, then \<open>emit("x y")\<close>: the
  listener is registered for both types, \<open>emit\<close> throws, and the log of the handler
  is empty.
\<close>

theorem emit_throws_before_first_handler_witness:
  "listenersFor two_types_demo (Str ''x'') = Some [0] \<and>
   listenersFor two_types_demo (Str ''y'') = Some [0] \<and>
   getTargets two_types_demo (world two_types_demo) = [1, 2] \<and>
   \<not> multiMatch two_types_demo \<and>
   (\<exists>s'. emit (TStr ''x y'') [] two_types_demo = Inl (undefined_read, s') \<and>
         world s' = [] \<and> events s' = [])"
proof -
  have "case typeDataFor two_types_demo of None \<Rightarrow> True | Some d \<Rightarrow> False" by code_simp
  then have nt: "typeDataFor two_types_demo = None" by (simp split: option.splits)
  have ets: "getEventTypes (TStr ''x y'') two_types_demo =
             Inr (length (sets two_types_demo),
                  two_types_demo\<lparr>sets := sets two_types_demo @
                     [splitNames two_types_demo ''x y'']\<rparr>)"
    by (simp add: getEventTypes_def alloc_set_def)
  have sp: "splitNames two_types_demo ''x y'' = [Str ''x'', Str ''y'']" by code_simp
  have ty: "Str ''x'' \<in> set (sets (two_types_demo\<lparr>sets := sets two_types_demo @
                     [splitNames two_types_demo ''x y'']\<rparr>) ! length (sets two_types_demo))"
    using sp by simp
  have x: "listenersFor two_types_demo (Str ''x'') = Some [0]" by code_simp
  have y: "listenersFor two_types_demo (Str ''y'') = Some [0]" by code_simp
  have l: "(0::nat) \<in> set [0]" by simp
  have g: "getTargets two_types_demo (world two_types_demo) = [1, 2]" by code_simp
  then have tg: "getTargets two_types_demo (world two_types_demo) \<noteq> []" by simp
  have m: "\<not> multiMatch two_types_demo" by code_simp
  have w: "world two_types_demo = []" by code_simp
  have e: "length (events two_types_demo) = 0" by code_simp
  from emit_throws_before_first_handler [OF nt ets ty x l tg, of "[]"] x y g m w e
  show ?thesis by simp
qed

text \<open>
  Claim C3 says that a listener with \<open>once\<close> set receives every delivery of a call
  of \<open>emit\<close> and is absent from \<open>allListeners\<close> and \<open>listenersFor\<close> once \<open>emit\<close> has
  returned. In a registry without \<open>typeDataFor\<close> no call of \<open>emit\<close> removes a
  listener or delivers an Event: whether it returns (nothing was to be dispatched)
  or throws (in the first Event constructor), both tables are as before, no Event
  has been built and no handler has been called.
\<close>

theorem once_listener_stays_registered:
  assumes "typeDataFor s = None"
  shows "allListeners (after_emit t as s) = allListeners s \<and>
         listenersFor (after_emit t as s) = listenersFor s \<and>
         listeners (after_emit t as s) = listeners s \<and>
         world (after_emit t as s) = world s \<and>
         events (after_emit t as s) = events s"
proof (cases "getEventTypes t s")
  case (Inl e)
  then show ?thesis by (simp add: after_emit_def state_after_def emit_def emit_pass_def)
next
  case (Inr r)
  obtain a s0 where r: "getEventTypes t s = Inr (a, s0)" using Inr by (cases r) simp
  have fr: "s0 = s\<lparr>sets := sets s0\<rparr>" by (rule getEventTypes_frame [OF r])
  let ?s1 = "s0\<lparr>arrays := arrays s0 @ [as]\<rparr>"
  have f: "allListeners ?s1 = allListeners s" "listenersFor ?s1 = listenersFor s"
    "listeners ?s1 = listeners s" "world ?s1 = world s" "events ?s1 = events s"
    by (subst fr, simp)+
  have "after_emit t as s = ?s1"
    using emit_no_table [OF assms r, of as]
    by (auto simp: after_emit_def state_after_def split: if_splits)
  then show ?thesis using f by simp
qed

text \<open>
  A registry made with \<open>multiMatch\<close> true over two targets, one listener registered
  by \<open>once("a b", h)\<close>, then \<open>emit("a b")\<close>: the call throws, the handler has logged
  nothing, and the listener is still in \<open>allListeners\<close> and under both types.
\<close>

theorem once_listener_stays_registered_witness:
  "once (l_options (listeners once_demo ! 0)) = Some True \<and>
   allListeners once_demo = [0] \<and>
   (case emit (TStr ''a b'') [] once_demo of
      Inl (e, s') \<Rightarrow> e = undefined_read | Inr r \<Rightarrow> False) \<and>
   allListeners (after_emit (TStr ''a b'') [] once_demo) = [0] \<and>
   listenersFor (after_emit (TStr ''a b'') [] once_demo) (Str ''a'') = Some [0] \<and>
   listenersFor (after_emit (TStr ''a b'') [] once_demo) (Str ''b'') = Some [0] \<and>
   world (after_emit (TStr ''a b'') [] once_demo) = []"
proof -
  have "case typeDataFor once_demo of None \<Rightarrow> True | Some d \<Rightarrow> False" by code_simp
  then have nt: "typeDataFor once_demo = None" by (simp split: option.splits)
  have o: "once (l_options (listeners once_demo ! 0)) = Some True" by code_simp
  have a: "allListeners once_demo = [0]" by code_simp
  have t: "case emit (TStr ''a b'') [] once_demo of
      Inl (e, s') \<Rightarrow> e = undefined_read | Inr r \<Rightarrow> False" by code_simp
  have la: "listenersFor once_demo (Str ''a'') = Some [0]" by code_simp
  have lb: "listenersFor once_demo (Str ''b'') = Some [0]" by code_simp
  have w: "world once_demo = []" by code_simp
  from once_listener_stays_registered [OF nt, of "TStr ''a b''" "[]"] o a t la lb w
  show ?thesis by simp
qed

subsection \<open>Registering a listener\<close>

lemma add_types_frame:
  "world (add_types l tys s) = world s \<and> events (add_types l tys s) = events s \<and>
   eventData (add_types l tys s) = eventData s \<and> listeners (add_types l tys s) = listeners s \<and>
   sets (add_types l tys s) = sets s \<and> allListeners (add_types l tys s) = allListeners s \<and>
   typeDataFor (add_types l tys s) = typeDataFor s"
  by (induction tys arbitrary: s) simp_all

lemma new_Listener_result:
  assumes "new_Listener sp s = Inr (l, s')"
  shows "world s' = (case (case setupListener (makeOpts sp) of
                              None \<Rightarrow> setupListener (r_opts s) | Some f \<Rightarrow> Some f) of
                       None \<Rightarrow> world s | Some f \<Rightarrow> f l (world s)) \<and>
         events s' = events s \<and> eventData s' = eventData s \<and>
         typeDataFor s' = typeDataFor s"
proof -
  obtain a s0 where g: "getEventTypes
      (case spec_eventTypes sp of TNullish \<Rightarrow> spec_eventNames sp | t \<Rightarrow> t) s = Inr (a, s0)"
    using assms by (auto simp: new_Listener_def Let_def split: if_splits sum.splits)
  have fr: "s0 = s\<lparr>sets := sets s0\<rparr>" by (rule getEventTypes_frame [OF g])
  have f: "world s0 = world s" "events s0 = events s" "eventData s0 = eventData s"
    "r_opts s0 = r_opts s" "typeDataFor s0 = typeDataFor s" by (subst fr, simp)+
  show ?thesis using assms g f
    by (auto simp: new_Listener_def Let_def split: if_splits option.splits)
qed

lemma makeOpts_positional [simp]:
  "makeOpts (sp\<lparr>spec_eventTypes := t, spec_handler := h\<rparr>) = makeOpts sp"
  by (simp add: makeOpts_def)

text \<open>
  \<open>listen\<close> builds the Listener and adds it to the tables. It reads no \<open>eventData\<close>
  and calls no handler: the application state after \<open>listen\<close> is what the
  \<open>setupListener\<close> callback alone makes of it (unchanged when there is none), no
  Event is built, and the tables of type data are left as they were.
\<close>

lemma listen_result:
  assumes "listen as s = Inr (l, s')"
  shows "world s' = (case listener_setup as s of None \<Rightarrow> world s | Some f \<Rightarrow> f l (world s)) \<and>
         events s' = events s \<and> eventData s' = eventData s \<and>
         typeDataFor s' = typeDataFor s"
proof -
  obtain s1 where m: "makeListener as s = Inr (l, s1)" and a: "add (Lsnr l) s1 = Inr s'"
    using assms by (auto simp: listen_def split: sum.splits)
  have s': "s' = add_types l (sets s1 ! eventTypes (listeners s1 ! l))
                   (s1\<lparr>allListeners := set_add (allListeners s1) l\<rparr>)"
    using a by (simp add: add_def)
  have fr: "world s' = world s1" "events s' = events s1" "eventData s' = eventData s1"
    "typeDataFor s' = typeDataFor s1"
    unfolding s' by (simp_all add: add_types_frame)
  show ?thesis
  proof (cases as)
    case NoArgs
    then show ?thesis using m by (simp add: makeListener_def)
  next
    case TooMany
    then show ?thesis using m by (simp add: makeListener_def)
  next
    case (OneSpec sp)
    then have "new_Listener sp s = Inr (l, s1)" using m by (simp add: makeListener_def)
    from new_Listener_result [OF this] fr OneSpec show ?thesis
      by (simp add: listener_setup_def)
  next
    case (Positional t h sp)
    then have "new_Listener (sp\<lparr>spec_eventTypes := t, spec_handler := h\<rparr>) s = Inr (l, s1)"
      using m by (simp add: makeListener_def)
    from new_Listener_result [OF this] fr Positional show ?thesis
      by (simp add: listener_setup_def)
  qed
qed

subsection \<open>No operation of the registry creates the table of type data\<close>

lemma new_Registry_no_table: "typeDataFor (new_Registry tgs w) = None"
  by (simp add: new_Registry_def)

lemma listen_no_table:
  "typeDataFor s = None \<Longrightarrow> listen as s = Inr (l, s') \<Longrightarrow> typeDataFor s' = None"
  using listen_result [of as s l s'] by simp

lemma once_no_table:
  "typeDataFor s = None \<Longrightarrow> once_r as s = Inr (l, s') \<Longrightarrow> typeDataFor s' = None"
  using listen_no_table [of s as]
  by (auto simp: once_r_def split: sum.splits)

lemma add_no_table:
  "typeDataFor s = None \<Longrightarrow> add v s = Inr s' \<Longrightarrow> typeDataFor s' = None"
  by (auto simp: add_def add_types_frame split: val.splits)

lemma set_no_table: "typeDataFor (set_r ty opts s) = typeDataFor s"
  by (simp add: set_r_def Let_def)

lemma strip_type_typeDataFor [simp]: "typeDataFor (strip_type et ls s) = typeDataFor s"
  by (induction ls arbitrary: s) (simp_all add: Let_def)

lemma removeEvents_typeDataFor [simp]: "typeDataFor (removeEvents ets s) = typeDataFor s"
  by (induction ets arbitrary: s) (simp_all add: Let_def split: option.splits)

lemma remove_no_table:
  "typeDataFor s = None \<Longrightarrow> remove_r what s = Inr s' \<Longrightarrow> typeDataFor s' = None"
  by (auto simp: remove_r_def removeAll_r_def
      simp del: removeEvents.simps removeListeners.simps split: if_splits val.splits)

lemma emit_no_table_after: "typeDataFor s = None \<Longrightarrow> typeDataFor (after_emit t as s) = None"
  by (simp add: after_emit_def emit_frame)

subsection \<open>Normalising event types\<close>

text \<open>
  Claim C8 says that \<open>getEventTypes\<close> copies every iterable, a Set included, into a
  new Set, so that the result is never the caller's object. A Set is returned as it
  is. What holds: the result names the types the argument names; for a string, a
  symbol or an iterable that is not a Set it is a new Set object, at an address no
  object of the store had, every older Set is left as it was and a later change of
  an older Set does not reach it; for a Set it is the caller's Set itself and nothing
  is allocated.
\<close>

theorem getEventTypes_new_unless_Set:
  assumes "getEventTypes t s = Inr (a, s')"
  shows "set (sets s' ! a) = named_types s t \<and>
         (\<forall>b. t = TSet b \<longrightarrow> a = b \<and> s' = s) \<and>
         ((\<forall>b. t \<noteq> TSet b) \<longrightarrow>
            a = length (sets s) \<and> length (sets s') = Suc (length (sets s)) \<and>
            distinct (sets s' ! a) \<and>
            (\<forall>b < length (sets s). sets s' ! b = sets s ! b \<and>
               (\<forall>v. (sets s')[b := v] ! a = sets s' ! a)))"
  using assms
  by (cases t)
     (auto simp: getEventTypes_def alloc_set_def named_types_def splitNames_def nth_append)

text \<open>
  Beside the caller's Set at address \<open>0\<close>, the array \<open>["a", "b", "a"]\<close> becomes a new
  Set at address \<open>1\<close> with the elements \<open>"a"\<close> and \<open>"b"\<close>; the Set at \<open>0\<close> is untouched.
\<close>

theorem getEventTypes_new_unless_Set_witness:
  "\<exists>s'. getEventTypes (TIter [Str ''a'', Str ''b'', Str ''a'']) caller_set_demo = Inr (1, s') \<and>
        set (sets s' ! 1) = {Str ''a'', Str ''b''} \<and> distinct (sets s' ! 1) \<and>
        sets s' ! 0 = [Str ''a'', Str ''b''] \<and> length (sets s') = 2"
proof -
  let ?t = "TIter [Str ''a'', Str ''b'', Str ''a'']"
  have l: "length (sets caller_set_demo) = 1" "sets caller_set_demo ! 0 = [Str ''a'', Str ''b'']"
    by (simp_all add: caller_set_demo_def)
  obtain s' where r: "getEventTypes ?t caller_set_demo = Inr (1, s')"
    using l by (simp add: getEventTypes_def alloc_set_def)
  have n: "named_types caller_set_demo ?t = {Str ''a'', Str ''b''}"
    by (auto simp: named_types_def)
  from getEventTypes_new_unless_Set [OF r] l n r show ?thesis by auto
qed

text \<open>
  Given the caller's Set at address \<open>0\<close>, \<open>getEventTypes\<close> returns address \<open>0\<close> and
  the store is as before: the result is the caller's object.
\<close>

theorem getEventTypes_returns_callers_Set:
  "getEventTypes (TSet 0) caller_set_demo = Inr (0, caller_set_demo) \<and>
   sets caller_set_demo ! 0 = [Str ''a'', Str ''b''] \<and> length (sets caller_set_demo) = 1"
  by (simp add: getEventTypes_def caller_set_demo_def)

subsection \<open>Removing everything\<close>

lemma getEventTypes_defined:
  "t \<noteq> TNullish \<Longrightarrow> t \<noteq> TOther \<Longrightarrow> \<exists>a s0. getEventTypes t s = Inr (a, s0)"
  by (cases t) (simp_all add: getEventTypes_def alloc_set_def)

text \<open>
  Claim C9: \<open>remove\<close> with the wildcard empties \<open>allListeners\<close> and \<open>listenersFor\<close>,
  and every later \<open>emit\<close> of event types (a string, a symbol, a Set or another
  iterable) returns a status with an empty \<open>emitted\<close> list, leaves both tables empty
  and calls no handler. A value that names no event types is refused by
  \<open>getEventTypes\<close> with its TypeError, as it is in every state of the registry.
\<close>

theorem remove_wildcard_then_emit:
  assumes "token_of what = Some (wildcard s)"
  shows "\<exists>s'. remove_r what s = Inr s' \<and> allListeners s' = [] \<and>
           (\<forall>ty. listenersFor s' ty = None) \<and>
           (\<forall>t as. t \<noteq> TNullish \<and> t \<noteq> TOther \<longrightarrow>
              (\<exists>sti s''. emit t as s' = Inr (sti, s'') \<and> emitted sti = [] \<and>
                 allListeners s'' = [] \<and> (\<forall>ty. listenersFor s'' ty = None) \<and>
                 world s'' = world s)) \<and>
           (\<forall>as. emit TNullish as s' = Inl (TypeError ''Invalid event names'', s') \<and>
                 emit TOther as s' = Inl (TypeError ''Invalid event names'', s'))"
proof -
  let ?s' = "removeAll_r s"
  have r: "remove_r what s = Inr ?s'" using assms by (simp add: remove_r_def)
  have e: "allListeners ?s' = []" "\<And>ty. listenersFor ?s' ty = None" "world ?s' = world s"
    by (simp_all add: removeAll_r_def)
  have "\<exists>sti s''. emit t as ?s' = Inr (sti, s'') \<and> emitted sti = [] \<and>
          allListeners s'' = [] \<and> (\<forall>ty. listenersFor s'' ty = None) \<and> world s'' = world s"
    if t: "t \<noteq> TNullish" "t \<noteq> TOther" for t as
  proof -
    from getEventTypes_defined [OF t] obtain a s0 where g: "getEventTypes t ?s' = Inr (a, s0)"
      by blast
    have "\<forall>ty\<in>set (sets s0 ! a). listenersFor ?s' ty = None" using e(2) by simp
    from emit_no_key [OF g this, of as] obtain sti s'' where
      em: "emit t as ?s' = Inr (sti, s'')" "emitted sti = []" "world s'' = world ?s'"
        "allListeners s'' = allListeners ?s'" "listenersFor s'' = listenersFor ?s'"
      by blast
    then show ?thesis using e by auto
  qed
  moreover have "emit TNullish as ?s' = Inl (TypeError ''Invalid event names'', ?s') \<and>
                 emit TOther as ?s' = Inl (TypeError ''Invalid event names'', ?s')" for as
    by (simp add: emit_def emit_pass_def getEventTypes_def)
  ultimately show ?thesis using r e by blast
qed

text \<open>
  On the registry with one wildcard listener: \<open>remove("*")\<close> empties the tables and
  \<open>emit("x")\<close> then returns an empty \<open>emitted\<close> list.
\<close>

theorem remove_wildcard_then_emit_witness:
  "allListeners wild_only = [0] \<and>
   (\<exists>s'. remove_r (StrV ''*'') wild_only = Inr s' \<and> allListeners s' = [] \<and>
      listenersFor s' (Str ''*'') = None \<and>
      (\<exists>sti s''. emit (TStr ''x'') [] s' = Inr (sti, s'') \<and> emitted sti = []))"
proof -
  have w: "wildcard wild_only = Str ''*''" by code_simp
  have a: "allListeners wild_only = [0]" by code_simp
  have t: "token_of (StrV ''*'') = Some (wildcard wild_only)" by (simp add: w token_of_def)
  from remove_wildcard_then_emit [OF t] obtain s' where
    s': "remove_r (StrV ''*'') wild_only = Inr s'" "allListeners s' = []"
      "\<forall>ty. listenersFor s' ty = None"
      "\<forall>t as. t \<noteq> TNullish \<and> t \<noteq> TOther \<longrightarrow>
          (\<exists>sti s''. emit t as s' = Inr (sti, s'') \<and> emitted sti = [] \<and>
             allListeners s'' = [] \<and> (\<forall>ty. listenersFor s'' ty = None) \<and>
             world s'' = world wild_only)"
    by (elim exE conjE) blast
  from s'(4) have "\<exists>sti s''. emit (TStr ''x'') [] s' = Inr (sti, s'') \<and> emitted sti = []"
    by (metis tyarg.distinct(7) tyarg.distinct(9))
  then show ?thesis using a s'(1-3) by blast
qed

subsection \<open>Removing all listeners and adding one again\<close>

lemma set_add_idem [simp]: "set_add (set_add xs x) x = set_add xs x"
  by (simp add: set_add_def)

lemma add_types_listenersFor:
  "listenersFor (add_types l tys s) ty =
     (if ty \<in> set tys
      then Some (set_add (case listenersFor s ty of Some lset \<Rightarrow> lset | None \<Rightarrow> []) l)
      else listenersFor s ty)"
  by (induction tys arbitrary: s) auto

text \<open>
  Claim C10: \<open>removeAll\<close> clears the two tables of the registry and leaves every
  Listener instance (its handler, its options, its Set of event types) as it was;
  \<open>add\<close> of a listener afterwards registers it, alone, under exactly the event types
  its Set holds. This is so for every Listener instance of the store.
\<close>

theorem removeAll_then_add:
  "listeners (removeAll_r s) = listeners s \<and> sets (removeAll_r s) = sets s \<and>
   allListeners (removeAll_r s) = [] \<and> listenersFor (removeAll_r s) ty = None \<and>
   (\<exists>s'. add (Lsnr l) (removeAll_r s) = Inr s' \<and>
      listeners s' = listeners s \<and> sets s' = sets s \<and> allListeners s' = [l] \<and>
      listenersFor s' ty =
        (if ty \<in> set (sets s ! eventTypes (listeners s ! l)) then Some [l] else None))"
  by (simp add: removeAll_r_def add_def add_types_frame add_types_listenersFor set_add_def)

end
